theory Spec2Isabelle
  imports Main "HOL-Library.Sublist" "HOL-Library.AList"
begin

section \<open>Chunker\<close>

text \<open>
  JavaScript strings are sequences of UTF-16 code units. The chunker only counts and
  slices them, so it is modelled over lists of any element type.

  \<^verbatim>\<open>String.prototype.slice(start, end)\<close>: a negative index counts from the end, both
  indices are clamped to the string, and an empty string results when the clamped
  start is not before the clamped end.
\<close>

definition js_slice :: "'a list \<Rightarrow> int \<Rightarrow> int \<Rightarrow> 'a list" where
  "js_slice s start end =
     (let len = int (length s);
          from = (if start < 0 then max (len + start) 0 else min start len);
          to = (if end < 0 then max (len + end) 0 else min end len)
      in take (nat (to - from)) (drop (nat from) s))"

text \<open>
  \<^verbatim>\<open>
  function chunkText(text: string, chunkSize: number): string[] {
    const chunks: string[] = [];
    for (let i = 0; i < text.length; i += chunkSize) {
      chunks.push(text.slice(i, i + chunkSize));
    }
    return chunks;
  }
  \<close>
  The loop has no guard on \<open>chunkSize\<close>, so its condition need not become false:
  the loop is a partial function, where \<open>None\<close> stands for a run that never leaves
  the loop through its condition.
\<close>

partial_function (option) chunkText_loop ::
  "'a list \<Rightarrow> int \<Rightarrow> int \<Rightarrow> 'a list list \<Rightarrow> 'a list list option" where
  "chunkText_loop text chunkSize i chunks =
     (if i < int (length text)
      then chunkText_loop text chunkSize (i + chunkSize) (chunks @ [js_slice text i (i + chunkSize)])
      else Some chunks)"

declare chunkText_loop.simps [code]

text \<open>
  An array cannot grow without bound. A run that never leaves the loop pushes until
  \<^verbatim>\<open>push\<close> throws \<^verbatim>\<open>RangeError: Invalid array length\<close>, so \<^verbatim>\<open>chunkText\<close> either
  returns the chunks (\<open>Inr\<close>) or throws that error (\<open>Inl\<close>, with the printed form of
  the error). A run that leaves the loop has made at most one chunk for each element
  of the text; the model takes the limit of the array to be above the length of a
  text, so that such a run does not reach it.
\<close>

definition chunkText :: "'a list \<Rightarrow> int \<Rightarrow> string + 'a list list" where
  "chunkText text chunkSize =
     (case chunkText_loop text chunkSize 0 [] of
        Some chunks \<Rightarrow> Inr chunks
      | None \<Rightarrow> Inl ''RangeError: Invalid array length'')"

section \<open>Caption normalizer\<close>

text \<open>
  Text is modelled as \<^typ>\<open>string\<close>: the code units \<open>0x00\<close> to \<open>0xFF\<close> of a
  JavaScript string. The normalizer inspects only ASCII characters and white space;
  of the white space that \<^verbatim>\<open>trim\<close> removes, the characters of this range are
  TAB, LF, VT, FF, CR, SPACE and NBSP.
\<close>

definition is_ws :: "char \<Rightarrow> bool" where
  "is_ws c = (c \<in> set [CHR 0x09, CHR 0x0A, CHR 0x0B, CHR 0x0C, CHR 0x0D, CHR 0x20, CHR 0xA0])"

definition js_trim :: "string \<Rightarrow> string" where
  "js_trim s = rev (dropWhile is_ws (rev (dropWhile is_ws s)))"

text \<open>\<^verbatim>\<open>s.split("\n")\<close>: the pieces between newlines; never an empty array.\<close>

fun js_split :: "string \<Rightarrow> string list" where
  "js_split [] = [[]]"
| "js_split (c # cs) =
     (let r = js_split cs
      in if c = CHR 0x0A then [] # r else (c # hd r) # tl r)"

text \<open>\<^verbatim>\<open>lines.join("\n")\<close>\<close>

fun js_join :: "string list \<Rightarrow> string" where
  "js_join [] = []"
| "js_join [l] = l"
| "js_join (l # ls) = l @ CHR 0x0A # js_join ls"

text \<open>\<^verbatim>\<open>s.includes(sub)\<close>: \<open>sub\<close> occurs in \<open>s\<close> at some position.\<close>

fun js_includes :: "string \<Rightarrow> string \<Rightarrow> bool" where
  "js_includes [] sub = (sub = [])"
| "js_includes (c # cs) sub = (prefix sub (c # cs) \<or> js_includes cs sub)"

text \<open>
  The two regular expressions of the source are alternatives of fixed-length sequences
  of literal characters and \<^verbatim>\<open>\d\<close> (an ASCII digit).
\<close>

datatype pat = Lit char | Digit

definition is_digit :: "char \<Rightarrow> bool" where
  "is_digit c = (c \<in> set ''0123456789'')"

fun match_pat :: "pat list \<Rightarrow> string \<Rightarrow> bool" where
  "match_pat [] s = True"
| "match_pat (p # ps) [] = False"
| "match_pat (p # ps) (c # cs) =
     ((case p of Lit a \<Rightarrow> c = a | Digit \<Rightarrow> is_digit c) \<and> match_pat ps cs)"

text \<open>
  \<^verbatim>\<open>s.replace(/a|b/g, "")\<close>: scanning from the left, the first alternative that
  matches at the current position is removed and the scan goes on behind it; a
  character where nothing matches is kept. The alternatives are non-empty, so a match
  of \<open>p\<close> at \<open>c # cs\<close> leaves \<open>drop (length p - 1) cs\<close>.
\<close>

fun replace_all :: "pat list list \<Rightarrow> string \<Rightarrow> string" where
  "replace_all alts [] = []"
| "replace_all alts (c # cs) =
     (case find (\<lambda>p. match_pat p (c # cs)) alts of
        Some p \<Rightarrow> replace_all alts (drop (length p - 1) cs)
      | None \<Rightarrow> c # replace_all alts cs)"

text \<open>\<^verbatim>\<open><\d{2}:\d{2}:\d{2}\.\d{3}>\<close>, \<^verbatim>\<open><\/c>\<close> and \<^verbatim>\<open><c>\<close>\<close>

definition timestamp_tag :: "pat list" where
  "timestamp_tag =
     [Lit CHR ''<'', Digit, Digit, Lit CHR '':'', Digit, Digit, Lit CHR '':'', Digit, Digit,
      Lit CHR ''.'', Digit, Digit, Digit, Lit CHR ''>'']"

definition close_c_tag :: "pat list" where
  "close_c_tag = map Lit ''</c>''"

definition open_c_tag :: "pat list" where
  "open_c_tag = map Lit ''<c>''"

definition cleanLine :: "string \<Rightarrow> string" where
  "cleanLine line = replace_all [open_c_tag] (replace_all [timestamp_tag, close_c_tag] line)"

text \<open>
  The first loop of \<^verbatim>\<open>stripVttNonContent\<close>, over \<^verbatim>\<open>contentLines\<close>: each
  \<^verbatim>\<open>continue\<close> skips the line, a line that is not blank after cleaning is pushed
  trimmed.
\<close>

fun textLines_loop :: "string list \<Rightarrow> string list" where
  "textLines_loop [] = []"
| "textLines_loop (line # rest) =
     (if js_includes line ''-->'' then textLines_loop rest
      else if js_includes line ''align:'' \<or> js_includes line ''position:''
        then textLines_loop rest
      else if js_trim line = [] then textLines_loop rest
      else let cleanedLine = cleanLine line
           in if js_trim cleanedLine \<noteq> []
              then js_trim cleanedLine # textLines_loop rest
              else textLines_loop rest)"

text \<open>
  The second loop: \<^verbatim>\<open>textLines[i]\<close> is pushed when \<^verbatim>\<open>i === 0\<close> or it differs from
  \<^verbatim>\<open>textLines[i - 1]\<close>, which \<open>uniqueLines_from\<close> carries as \<open>prev\<close>.
\<close>

fun uniqueLines_from :: "string \<Rightarrow> string list \<Rightarrow> string list" where
  "uniqueLines_from prev [] = []"
| "uniqueLines_from prev (l # ls) =
     (if l \<noteq> prev then l # uniqueLines_from l ls else uniqueLines_from l ls)"

fun uniqueLines_loop :: "string list \<Rightarrow> string list" where
  "uniqueLines_loop [] = []"
| "uniqueLines_loop (l # ls) = l # uniqueLines_from l ls"

definition stripVttNonContent :: "string \<Rightarrow> string" where
  "stripVttNonContent vttContent =
     (if vttContent = [] \<or> js_trim vttContent = [] then []
      else let lines = js_split vttContent
           in if length lines < 4 \<or> \<not> js_includes (lines ! 0) ''WEBVTT'' then []
              else let contentLines = drop 4 lines;
                       textLines = textLines_loop contentLines;
                       uniqueLines = uniqueLines_loop textLines
                   in js_join uniqueLines)"

section \<open>Cache and request handlers\<close>

text \<open>
  Numbers are modelled as integers: the chunk counts and lengths are, and so are the
  \<^verbatim>\<open>chunk_index\<close> and \<^verbatim>\<open>chunk_size\<close> arguments that the claims speak about. A
  template literal prints an integer of magnitude up to \<open>2^53\<close> in decimal, with a
  minus sign when negative; counts, lengths and valid indices are in that range.
\<close>

fun nat_to_string :: "nat \<Rightarrow> string" where
  "nat_to_string n =
     (if n < 10 then [''0123456789'' ! n]
      else nat_to_string (n div 10) @ [''0123456789'' ! (n mod 10)])"

declare nat_to_string.simps [simp del]

definition num_to_string :: "int \<Rightarrow> string" where
  "num_to_string n =
     (if n < 0 then CHR ''-'' # nat_to_string (nat (- n)) else nat_to_string (nat n))"

record SubtitleCache =
  url :: string
  content :: string
  chunks :: "string list"
  timestamp :: int

definition CACHE_TTL :: int where
  "CACHE_TTL = 30 * 60 * 1000"

definition DEFAULT_CHUNK_SIZE :: int where
  "DEFAULT_CHUNK_SIZE = 15000"

text \<open>
  A JavaScript \<^verbatim>\<open>Map\<close> keeps its entries in insertion order, one per key. It is
  modelled as an association list: \<^verbatim>\<open>get\<close> is \<^const>\<open>map_of\<close>, \<^verbatim>\<open>set\<close> is
  \<^const>\<open>AList.update\<close> (in place for a key that is present, at the end for a new
  one), \<^verbatim>\<open>delete\<close> is \<^const>\<open>AList.delete\<close>, and \<^verbatim>\<open>entries()\<close> is the list. The keys
  of a \<^verbatim>\<open>Map\<close> are distinct.
\<close>

type_synonym cache_map = "(string \<times> SubtitleCache) list"

text \<open>
  The state of the server is the module-level \<^verbatim>\<open>subtitleCache\<close>. \<open>downloads\<close> is a
  ghost field: the URLs that \<^verbatim>\<open>downloadSubtitles\<close> was called with, in order, so that
  theorems can say whether a request reached the transcript source.
\<close>

record server_state =
  subtitleCache :: cache_map
  downloads :: "string list"

definition wf_state :: "server_state \<Rightarrow> bool" where
  "wf_state st = distinct (map fst (subtitleCache st))"

text \<open>
  What one request reads from outside the program: the digest of
  \<^verbatim>\<open>crypto.createHash('md5')\<close>, the two readings of \<^verbatim>\<open>Date.now()\<close> (in
  \<^verbatim>\<open>cleanupExpiredCache\<close> and when the entry is built), and what \<^verbatim>\<open>yt-dlp\<close> leaves
  in the temporary directory for a URL: the files as pairs of name and content in the
  order of \<^verbatim>\<open>readdirSync\<close>, or the printed form of the error that the spawn or the
  file system raised.

  The last field is the text that the engine prints for a number of magnitude above
  \<open>2^53\<close>. There the digits are the shortest that read back as the floating-point
  value, with zeros appended or, from \<open>10^21\<close> on, in exponent form (\<^verbatim>\<open>1e+21\<close>);
  the model does not compute them.
\<close>

record world =
  md5_hex :: "string \<Rightarrow> string"
  now_cleanup :: int
  now_store :: int
  yt_dlp :: "string \<Rightarrow> string + (string \<times> string) list"
  big_number_text :: "int \<Rightarrow> string"

text \<open>
  \<^verbatim>\<open>${n}\<close> for a number that comes with the request, which may be of any magnitude.
\<close>

definition js_number_text :: "world \<Rightarrow> int \<Rightarrow> string" where
  "js_number_text w n = (if \<bar>n\<bar> \<le> 2 ^ 53 then num_to_string n else big_number_text w n)"

definition getCacheKey :: "world \<Rightarrow> string \<Rightarrow> string" where
  "getCacheKey w u = md5_hex w u"

text \<open>
  \<^verbatim>\<open>
  for (const [key, cache] of subtitleCache.entries()) {
    if (now - cache.timestamp > CACHE_TTL) { subtitleCache.delete(key); }
  }
  \<close>
  The loop visits the entries in order and deletes only the entry it is visiting, so
  it sees every entry that was in the map when it started.
\<close>

fun cleanup_loop :: "int \<Rightarrow> (string \<times> SubtitleCache) list \<Rightarrow> cache_map \<Rightarrow> cache_map" where
  "cleanup_loop now [] m = m"
| "cleanup_loop now ((key, cache) # entries) m =
     cleanup_loop now entries
       (if now - timestamp cache > CACHE_TTL then AList.delete key m else m)"

definition cleanupExpiredCache :: "int \<Rightarrow> cache_map \<Rightarrow> cache_map" where
  "cleanupExpiredCache now m = cleanup_loop now m m"

definition downloadSubtitles :: "world \<Rightarrow> string \<Rightarrow> string + string" where
  "downloadSubtitles w u =
     (case yt_dlp w u of
        Inl err \<Rightarrow> Inl err
      | Inr files \<Rightarrow>
          Inr (foldl (\<lambda>acc (file, fileContent).
                        acc @ file @ ''\<newline>====================\<newline>''
                          @ stripVttNonContent fileContent)
                 [] files))"

text \<open>
  Both handlers start with the same statements (lines 138 to 155 and 192 to 210 of the
  source): sweep, look the key up, and on a miss download, chunk and store. They
  differ in the chunk size only. The result is \<open>Inl err\<close> when the download or
  \<^verbatim>\<open>chunkText\<close> throws (the sweep has happened by then, and nothing is stored), and
  \<open>Inr cache\<close> otherwise.
\<close>

definition getOrPopulate ::
  "world \<Rightarrow> string \<Rightarrow> int \<Rightarrow> server_state \<Rightarrow> (string + SubtitleCache) \<times> server_state" where
  "getOrPopulate w u chunkSize st =
     (let swept = cleanupExpiredCache (now_cleanup w) (subtitleCache st);
          cacheKey = getCacheKey w u
      in case map_of swept cacheKey of
           Some cache \<Rightarrow> (Inr cache, st\<lparr>subtitleCache := swept\<rparr>)
         | None \<Rightarrow>
             (case downloadSubtitles w u of
                Inl err \<Rightarrow>
                  (Inl err, st\<lparr>subtitleCache := swept, downloads := downloads st @ [u]\<rparr>)
              | Inr content' \<Rightarrow>
                  (case chunkText content' chunkSize of
                     Inl err \<Rightarrow>
                       (Inl err, st\<lparr>subtitleCache := swept, downloads := downloads st @ [u]\<rparr>)
                   | Inr chunks' \<Rightarrow>
                       let cache = \<lparr>url = u, content = content', chunks = chunks',
                                     timestamp = now_store w\<rparr>
                       in (Inr cache,
                           st\<lparr>subtitleCache := AList.update cacheKey cache swept,
                              downloads := downloads st @ [u]\<rparr>))))"

text \<open>
  The envelope that both handlers return, \<^verbatim>\<open>{content: [{type: "text", text}], isError}\<close>.
  \<open>result_text = None\<close> is the JavaScript value
  \<^verbatim>\<open>undefined\<close>; a success envelope has no \<^verbatim>\<open>isError\<close> property, which reads as
  false. Each handler catches what its body throws and returns the error envelope, so
  every request returns an envelope.
\<close>

record tool_result =
  result_text :: "string option"
  isError :: bool

text \<open>
  Lines 157 to 176: \<^verbatim>\<open>cache.chunks[0]\<close> is \<^verbatim>\<open>undefined\<close> when there is no chunk. In
  the branch of a long video there are at least two chunks, so the index is in range.
\<close>

definition first_chunk_response :: "SubtitleCache \<Rightarrow> tool_result" where
  "first_chunk_response cache =
     (let totalChunks = length (chunks cache);
          isLongVideo = totalChunks > 1;
          responseText = (if 0 < length (chunks cache) then Some (chunks cache ! 0) else None)
      in if isLongVideo
         then \<lparr>result_text = Some (chunks cache ! 0
                  @ ''\<newline>\<newline>=== PAGINATION INFO ===\<newline>''
                  @ ''This is chunk 1 of '' @ nat_to_string totalChunks
                  @ '' ('' @ nat_to_string (length (chunks cache ! 0)) @ '' characters)\<newline>''
                  @ ''Total content length: '' @ nat_to_string (length (content cache))
                  @ '' characters\<newline>''
                  @ ''To get the next chunk, use: get_youtube_subtitles with chunk_index=1''),
               isError = False\<rparr>
         else \<lparr>result_text = responseText, isError = False\<rparr>)"

definition handleDownloadYoutubeUrl ::
  "world \<Rightarrow> string \<Rightarrow> server_state \<Rightarrow> tool_result \<times> server_state" where
  "handleDownloadYoutubeUrl w u st =
     (case getOrPopulate w u DEFAULT_CHUNK_SIZE st of
        (Inl err, st') \<Rightarrow>
          (\<lparr>result_text = Some (''Error downloading video: '' @ err), isError = True\<rparr>, st')
      | (Inr cache, st') \<Rightarrow> (first_chunk_response cache, st'))"

text \<open>The arguments of \<^verbatim>\<open>get_youtube_subtitles\<close>; \<^verbatim>\<open>chunk_size\<close> is optional.\<close>

record subtitles_args =
  arg_url :: string
  chunk_index :: int
  chunk_size :: "int option"

text \<open>
  The text that lines 228 to 236 append to the chunk.
\<close>

definition pagination_footer :: "SubtitleCache \<Rightarrow> int \<Rightarrow> string" where
  "pagination_footer cache idx =
     (let chunk = chunks cache ! nat idx;
          totalChunks = int (length (chunks cache))
      in ''\<newline>\<newline>=== PAGINATION INFO ===\<newline>''
         @ ''This is chunk '' @ num_to_string (idx + 1) @ '' of '' @ num_to_string totalChunks
         @ '' ('' @ nat_to_string (length chunk) @ '' characters)\<newline>''
         @ ''Total content length: '' @ nat_to_string (length (content cache))
         @ '' characters\<newline>''
         @ (if idx < totalChunks - 1
            then ''To get the next chunk, use: get_youtube_subtitles with chunk_index=''
                 @ num_to_string (idx + 1)
            else ''This is the last chunk.''))"

text \<open>
  Lines 212 to 245: the range check, then the chunk with its footer. The error text
  echoes the \<^verbatim>\<open>chunk_index\<close> of the request.
\<close>

definition chunk_response :: "world \<Rightarrow> SubtitleCache \<Rightarrow> int \<Rightarrow> tool_result" where
  "chunk_response w cache idx =
     (if idx < 0 \<or> idx \<ge> int (length (chunks cache))
      then \<lparr>result_text = Some (''Error: chunk_index '' @ js_number_text w idx
                  @ '' is out of range. Available chunks: 0-''
                  @ num_to_string (int (length (chunks cache)) - 1)),
            isError = True\<rparr>
      else \<lparr>result_text = Some (chunks cache ! nat idx @ pagination_footer cache idx),
            isError = False\<rparr>)"

text \<open>
  \<^verbatim>\<open>args.chunk_size || DEFAULT_CHUNK_SIZE\<close>: the default replaces a missing size and
  the falsy number 0; every other number is used as it is.
\<close>

definition handleGetYoutubeSubtitles ::
  "world \<Rightarrow> subtitles_args \<Rightarrow> server_state \<Rightarrow> tool_result \<times> server_state" where
  "handleGetYoutubeSubtitles w args st =
     (let chunkSize = (case chunk_size args of
                         None \<Rightarrow> DEFAULT_CHUNK_SIZE
                       | Some n \<Rightarrow> if n = 0 then DEFAULT_CHUNK_SIZE else n)
      in case getOrPopulate w (arg_url args) chunkSize st of
           (Inl err, st') \<Rightarrow>
             (\<lparr>result_text = Some (''Error getting subtitles: '' @ err), isError = True\<rparr>, st')
         | (Inr cache, st') \<Rightarrow> (chunk_response w cache (chunk_index args), st'))"

section \<open>The chunker returns a partition\<close>

lemma js_slice_step:
  assumes "0 \<le> i" "i < int (length t)" "0 < s"
  shows "js_slice t i (i + s) = take (nat s) (drop (nat i) t)"
  using assms by (auto simp: js_slice_def Let_def min_def max_def)

text \<open>
  With a positive size the loop ends, after appending to \<open>acc\<close> a partition of the
  text from position \<open>i\<close> on. The distance of \<open>i\<close> to the end of the text decreases.
\<close>

lemma chunkText_loop_total:
  assumes "0 < s" "0 \<le> i"
  shows "\<exists>cs. chunkText_loop t s i acc = Some (acc @ cs) \<and>
           concat cs = drop (nat i) t \<and>
           (\<forall>c \<in> set (butlast cs). int (length c) = s) \<and>
           (cs \<noteq> [] \<longrightarrow> last cs \<noteq> [] \<and> int (length (last cs)) \<le> s) \<and>
           (cs = [] \<longleftrightarrow> int (length t) \<le> i)"
  using assms
proof (induction "nat (int (length t) - i)" arbitrary: i acc rule: less_induct)
  case less
  show ?case
  proof (cases "i < int (length t)")
    case False
    then show ?thesis
      by (subst chunkText_loop.simps) simp
  next
    case True
    let ?c = "js_slice t i (i + s)"
    have c: "?c = take (nat s) (drop (nat i) t)"
      using js_slice_step[OF less.prems(2) True less.prems(1)] .
    have lt: "nat (int (length t) - (i + s)) < nat (int (length t) - i)"
      using True less.prems by linarith
    from less.hyps[OF lt less.prems(1), of "acc @ [?c]"] less.prems
    obtain cs where cs: "chunkText_loop t s (i + s) (acc @ [?c]) = Some ((acc @ [?c]) @ cs)"
      "concat cs = drop (nat (i + s)) t"
      "\<forall>c \<in> set (butlast cs). int (length c) = s"
      "cs \<noteq> [] \<longrightarrow> last cs \<noteq> [] \<and> int (length (last cs)) \<le> s"
      "cs = [] \<longleftrightarrow> int (length t) \<le> i + s"
      by auto
    have step: "chunkText_loop t s i acc = Some (acc @ (?c # cs))"
      using True cs(1) by (subst chunkText_loop.simps) simp
    have nn: "nat (i + s) = nat s + nat i"
      using less.prems by linarith
    have cat: "concat (?c # cs) = drop (nat i) t"
    proof -
      have "drop (nat s) (drop (nat i) t) = drop (nat (i + s)) t"
        by (simp add: nn)
      then have "concat (?c # cs) = take (nat s) (drop (nat i) t) @ drop (nat s) (drop (nat i) t)"
        using cs(2) by (simp only: concat.simps c)
      then show ?thesis by (simp only: append_take_drop_id)
    qed
    have lenc: "int (length ?c) = min s (int (length t) - i)"
    proof -
      have "length ?c = min (nat s) (length t - nat i)" by (simp add: c)
      then show ?thesis using True less.prems by linarith
    qed
    have full: "cs \<noteq> [] \<Longrightarrow> int (length ?c) = s"
      using cs(5) lenc by (simp add: min_def)
    have "0 < int (length ?c)"
      using lenc True less.prems by linarith
    then have pos: "?c \<noteq> []" by auto
    have le: "int (length ?c) \<le> s"
      using lenc by simp
    show ?thesis
      apply (rule exI[of _ "?c # cs"])
      using step cat cs(3,4) full pos le True by auto
  qed
qed

text \<open>
  C1. For every text \<open>T\<close> and every positive size \<open>S\<close>, \<open>chunkText\<close> returns chunks; the
  chunks concatenated in order are \<open>T\<close>; every chunk but the last has exactly \<open>S\<close>
  elements; the last chunk has between 1 and \<open>S\<close>; and the empty text has no chunk.
\<close>

theorem chunkText_partition:
  assumes "0 < S"
  shows "\<exists>cs. chunkText T S = Inr cs \<and> concat cs = T \<and>
           (\<forall>k. Suc k < length cs \<longrightarrow> int (length (cs ! k)) = S) \<and>
           (cs \<noteq> [] \<longrightarrow> 1 \<le> length (last cs) \<and> int (length (last cs)) \<le> S) \<and>
           (T = [] \<longrightarrow> cs = [])"
proof -
  from chunkText_loop_total[OF assms, of 0 T "[]"]
  obtain cs where cs: "chunkText T S = Inr cs" "concat cs = T"
    "\<forall>c \<in> set (butlast cs). int (length c) = S"
    "cs \<noteq> [] \<longrightarrow> last cs \<noteq> [] \<and> int (length (last cs)) \<le> S"
    "cs = [] \<longleftrightarrow> int (length T) \<le> 0"
    by (auto simp: chunkText_def)
  have "int (length (cs ! k)) = S" if "Suc k < length cs" for k
  proof -
    from that have "butlast cs ! k \<in> set (butlast cs)" by simp
    moreover from that have "butlast cs ! k = cs ! k" by (simp add: nth_butlast)
    ultimately show ?thesis using cs(3) by auto
  qed
  moreover have "1 \<le> length (last cs)" if "cs \<noteq> []"
    using that cs(4) by (cases "last cs") auto
  ultimately show ?thesis
    using cs by auto
qed

theorem chunkText_partition_witness:
  "(0::int) < 3 \<and>
   (\<exists>cs. chunkText ''abcdefg'' 3 = Inr cs \<and> concat cs = ''abcdefg'' \<and>
      (\<forall>k. Suc k < length cs \<longrightarrow> int (length (cs ! k)) = 3) \<and>
      (cs \<noteq> [] \<longrightarrow> 1 \<le> length (last cs) \<and> int (length (last cs)) \<le> 3) \<and>
      (''abcdefg'' = [] \<longrightarrow> cs = []))"
proof -
  have h: "(0::int) < 3" by simp
  show ?thesis using h chunkText_partition[OF h, of "''abcdefg''"] by blast
qed

section \<open>The normalizer on the scenario of the specification\<close>

text \<open>
  C7. The raw input of the end-to-end scenario normalizes to \<open>Hello\<close>, a newline and
  \<open>World\<close>.
\<close>

theorem stripVttNonContent_scenario:
  "stripVttNonContent
     ''WEBVTT\<newline>\<newline>00:00:00.000 --> 00:00:01.000\<newline>Hello\<newline>\<newline>00:00:01.000 --> 00:00:02.000\<newline>Hello\<newline>\<newline>00:00:02.000 --> 00:00:03.000\<newline>World\<newline>''
   = ''Hello\<newline>World''"
  by code_simp

section \<open>Lines of a text\<close>

lemma js_split_nonempty: "js_split s \<noteq> []"
  by (induction s) (auto simp: Let_def)

lemma js_split_hd: "hd (js_split s) = takeWhile (\<lambda>c. c \<noteq> CHR 0x0A) s"
  by (induction s) (auto simp: Let_def)

lemma js_split_no_newline: "l \<in> set (js_split s) \<Longrightarrow> CHR 0x0A \<notin> set l"
proof (induction s arbitrary: l)
  case Nil
  then show ?case by simp
next
  case (Cons c cs)
  obtain r rs where r: "js_split cs = r # rs"
    using js_split_nonempty[of cs] by (cases "js_split cs") auto
  with Cons show ?case
    by (auto simp: Let_def split: if_splits)
qed

lemma js_split_line: "CHR 0x0A \<notin> set l \<Longrightarrow> js_split l = [l]"
  by (induction l) (auto simp: Let_def)

lemma js_split_append: "CHR 0x0A \<notin> set l \<Longrightarrow> js_split (l @ CHR 0x0A # s) = l # js_split s"
  by (induction l) (auto simp: Let_def)

text \<open>Splitting undoes joining, for lines without a newline.\<close>

lemma js_split_join:
  "ls \<noteq> [] \<Longrightarrow> \<forall>l \<in> set ls. CHR 0x0A \<notin> set l \<Longrightarrow> js_split (js_join ls) = ls"
  by (induction ls rule: js_join.induct) (auto simp: js_split_line js_split_append)

text \<open>\<open>js_includes\<close> decides whether \<open>sub\<close> is a contiguous part of \<open>s\<close>.\<close>

lemma js_includes_iff: "js_includes s sub \<longleftrightarrow> (\<exists>p q. s = p @ sub @ q)"
proof (induction s)
  case Nil
  then show ?case by auto
next
  case (Cons c cs)
  show ?case
  proof
    assume "js_includes (c # cs) sub"
    then consider "prefix sub (c # cs)" | "js_includes cs sub" by auto
    then show "\<exists>p q. c # cs = p @ sub @ q"
    proof cases
      case 1
      then obtain q where "c # cs = sub @ q" by (auto simp: prefix_def)
      then have "c # cs = [] @ sub @ q" by simp
      then show ?thesis by blast
    next
      case 2
      with Cons obtain p q where "cs = p @ sub @ q" by auto
      then have "c # cs = (c # p) @ sub @ q" by simp
      then show ?thesis by blast
    qed
  next
    assume "\<exists>p q. c # cs = p @ sub @ q"
    then obtain p q where pq: "c # cs = p @ sub @ q" by auto
    show "js_includes (c # cs) sub"
    proof (cases p)
      case Nil
      with pq have "prefix sub (c # cs)" by (auto simp: prefix_def)
      then show ?thesis by simp
    next
      case (Cons a p')
      with pq have "cs = p' @ sub @ q" by simp
      with Cons.IH have "js_includes cs sub" by blast
      then show ?thesis by simp
    qed
  qed
qed

section \<open>The normalizer only removes characters\<close>

lemma set_replace_all: "set (replace_all alts s) \<subseteq> set s"
proof (induction alts s rule: replace_all.induct)
  case (1 alts)
  then show ?case by simp
next
  case (2 alts c cs)
  show ?case
  proof (cases "find (\<lambda>p. match_pat p (c # cs)) alts")
    case None
    with 2 show ?thesis by auto
  next
    case (Some p)
    with 2 have "set (replace_all alts (drop (length p - 1) cs)) \<subseteq> set (drop (length p - 1) cs)"
      by simp
    also have "\<dots> \<subseteq> set cs" by (rule set_drop_subset)
    finally show ?thesis using Some by auto
  qed
qed

lemma set_js_trim: "set (js_trim s) \<subseteq> set s"
proof -
  have "set (js_trim s) \<subseteq> set (rev (dropWhile is_ws s))"
    unfolding js_trim_def set_rev by (auto dest: set_dropWhileD)
  also have "\<dots> \<subseteq> set s" by (auto dest: set_dropWhileD)
  finally show ?thesis .
qed

lemma set_cleanLine: "set (cleanLine l) \<subseteq> set l"
  unfolding cleanLine_def using set_replace_all by (meson subset_trans)

lemma textLines_loop_chars:
  "t \<in> set (textLines_loop ls) \<Longrightarrow> \<exists>l \<in> set ls. set t \<subseteq> set l"
proof (induction ls)
  case Nil
  then show ?case by simp
next
  case (Cons l ls)
  have "set (js_trim (cleanLine l)) \<subseteq> set l"
    using set_js_trim set_cleanLine by (meson subset_trans)
  with Cons show ?case
    by (auto simp: Let_def split: if_splits)
qed

lemma length_textLines_loop: "length (textLines_loop ls) \<le> length ls"
  by (induction ls) (auto simp: Let_def)

lemma uniqueLines_from_props:
  "set (uniqueLines_from p ls) \<subseteq> set ls \<and> length (uniqueLines_from p ls) \<le> length ls"
  by (induction p ls rule: uniqueLines_from.induct) auto

lemma uniqueLines_loop_props:
  "set (uniqueLines_loop ls) \<subseteq> set ls \<and> length (uniqueLines_loop ls) \<le> length ls"
  using uniqueLines_from_props by (cases ls) auto

text \<open>A non-empty result has at least four lines fewer than the input.\<close>

lemma stripVttNonContent_lines:
  assumes "stripVttNonContent x \<noteq> []"
  shows "length (js_split (stripVttNonContent x)) + 4 \<le> length (js_split x)"
proof -
  let ?U = "uniqueLines_loop (textLines_loop (drop 4 (js_split x)))"
  from assms have out: "stripVttNonContent x = js_join ?U"
    by (auto simp: stripVttNonContent_def Let_def split: if_splits)
  with assms have ne: "?U \<noteq> []" by auto
  have "CHR 0x0A \<notin> set t" if "t \<in> set ?U" for t
  proof -
    from that uniqueLines_loop_props
    have "t \<in> set (textLines_loop (drop 4 (js_split x)))" by blast
    then obtain l where l: "l \<in> set (drop 4 (js_split x))" "set t \<subseteq> set l"
      using textLines_loop_chars by blast
    from l(1) have "l \<in> set (js_split x)" by (rule in_set_dropD)
    with l(2) js_split_no_newline show ?thesis by blast
  qed
  with ne have "js_split (js_join ?U) = ?U"
    by (simp add: js_split_join)
  moreover have "length ?U \<le> length (js_split x) - 4"
    using uniqueLines_loop_props[of "textLines_loop (drop 4 (js_split x))"]
      length_textLines_loop[of "drop 4 (js_split x)"] by simp
  moreover have "4 < length (js_split x)"
  proof (rule ccontr)
    assume "\<not> 4 < length (js_split x)"
    then have "drop 4 (js_split x) = []" by simp
    with ne show False by simp
  qed
  ultimately show ?thesis using out by simp
qed

lemma stripVttNonContent_Nil: "stripVttNonContent [] = []"
  by (simp add: stripVttNonContent_def)

lemma stripVttNonContent_fixed_point: "stripVttNonContent y = y \<longleftrightarrow> y = []"
proof
  assume fp: "stripVttNonContent y = y"
  show "y = []"
  proof (rule ccontr)
    assume "y \<noteq> []"
    with fp have "stripVttNonContent y \<noteq> []" by simp
    from stripVttNonContent_lines[OF this] fp show False by simp
  qed
qed (simp add: stripVttNonContent_Nil)

text \<open>
  C5, as stated: an input that does not start with \<open>WEBVTT\<close> normalizes to the empty
  text. It fails where the marker stands later in the first line: the source tests
  \<^verbatim>\<open>lines[0].includes("WEBVTT")\<close>.
\<close>

theorem stripVttNonContent_marker_inside:
  "\<not> prefix ''WEBVTT'' ''xWEBVTT\<newline>\<newline>\<newline>\<newline>Hello'' \<and>
   stripVttNonContent ''xWEBVTT\<newline>\<newline>\<newline>\<newline>Hello'' = ''Hello'' \<and>
   stripVttNonContent ''xWEBVTT\<newline>\<newline>\<newline>\<newline>Hello'' \<noteq> []"
  by code_simp

text \<open>
  C5, amended: an input whose first line (the text before the first newline) does not
  contain \<open>WEBVTT\<close> normalizes to the empty text.
\<close>

theorem stripVttNonContent_no_marker:
  assumes "\<not> js_includes (takeWhile (\<lambda>c. c \<noteq> CHR 0x0A) x) ''WEBVTT''"
  shows "stripVttNonContent x = []"
  using assms js_split_nonempty[of x] js_split_hd[of x]
  by (auto simp: stripVttNonContent_def Let_def hd_conv_nth)

theorem stripVttNonContent_no_marker_witness:
  "\<not> js_includes (takeWhile (\<lambda>c. c \<noteq> CHR 0x0A)
        ''Hello\<newline>WEBVTT\<newline>\<newline>\<newline>\<newline>Hi'') ''WEBVTT'' \<and>
   stripVttNonContent ''Hello\<newline>WEBVTT\<newline>\<newline>\<newline>\<newline>Hi'' = []"
proof -
  have h: "\<not> js_includes (takeWhile (\<lambda>c. c \<noteq> CHR 0x0A)
             ''Hello\<newline>WEBVTT\<newline>\<newline>\<newline>\<newline>Hi'') ''WEBVTT''"
    by simp
  show ?thesis using h stripVttNonContent_no_marker[OF h] by simp
qed

text \<open>
  C6, as stated: normalizing the result of a normalization returns it unchanged. It
  fails on every non-empty result; here the result \<open>Hello\<close> has no header, and
  normalizes to the empty text.
\<close>

theorem stripVttNonContent_not_idempotent:
  "stripVttNonContent ''WEBVTT\<newline>\<newline>\<newline>\<newline>Hello'' = ''Hello'' \<and>
   stripVttNonContent (stripVttNonContent ''WEBVTT\<newline>\<newline>\<newline>\<newline>Hello'') = [] \<and>
   stripVttNonContent (stripVttNonContent ''WEBVTT\<newline>\<newline>\<newline>\<newline>Hello'')
     \<noteq> stripVttNonContent ''WEBVTT\<newline>\<newline>\<newline>\<newline>Hello''"
  by code_simp

text \<open>
  C6, amended: normalizing the result of a normalization returns it unchanged exactly
  when that result is the empty text; a non-empty result is never returned unchanged,
  since normalization discards at least four lines.
\<close>

theorem stripVttNonContent_twice:
  "stripVttNonContent (stripVttNonContent x) = stripVttNonContent x
     \<longleftrightarrow> stripVttNonContent x = []"
  by (rule stripVttNonContent_fixed_point)

section \<open>The outcomes of the chunker\<close>

lemma chunkText_total: "0 < s \<Longrightarrow> \<exists>cs. chunkText t s = Inr cs"
  using chunkText_loop_total[of s 0 t "[]"] by (auto simp: chunkText_def)

lemma chunkText_Nil: "chunkText [] s = Inr []"
  unfolding chunkText_def by (subst chunkText_loop.simps) simp

text \<open>
  A run of the loop with a size that is not positive and a position inside the text
  leads to another such run, so it never leaves the loop.
\<close>

lemma chunkText_loop_Some_exit:
  assumes "chunkText_loop t s i acc = Some y"
  shows "\<not> (s \<le> 0 \<and> i < int (length t))"
proof (rule chunkText_loop.raw_induct
    [where P = "\<lambda>t s i acc y. \<not> (s \<le> 0 \<and> i < int (length t))", OF _ assms])
  fix f :: "'a list \<Rightarrow> int \<Rightarrow> int \<Rightarrow> 'a list list \<Rightarrow> 'a list list option"
    and t s i acc y
  assume IH: "\<And>t s i acc y. f t s i acc = Some y \<Longrightarrow> \<not> (s \<le> 0 \<and> i < int (length t))"
    and eq: "(if i < int (length t) then f t s (i + s) (acc @ [js_slice t i (i + s)])
              else Some acc) = Some y"
  show "\<not> (s \<le> 0 \<and> i < int (length t))"
  proof
    assume inv: "s \<le> 0 \<and> i < int (length t)"
    then have "f t s (i + s) (acc @ [js_slice t i (i + s)]) = Some y"
      using eq by simp
    from IH[OF this] inv show False by simp
  qed
qed

lemma chunkText_throws:
  "s \<le> 0 \<Longrightarrow> t \<noteq> [] \<Longrightarrow> chunkText t s = Inl ''RangeError: Invalid array length''"
  using chunkText_loop_Some_exit[of t s 0 "[]"]
  by (cases "chunkText_loop t s 0 []") (auto simp: chunkText_def)

section \<open>The cache\<close>

lemma cleanup_loop_distinct:
  "distinct (map fst m) \<Longrightarrow> distinct (map fst (cleanup_loop now es m))"
  by (induction now es m rule: cleanup_loop.induct) (auto simp: distinct_delete)

lemma map_of_cleanup_loop:
  "map_of (cleanup_loop now es m) k =
     (if \<exists>c. (k, c) \<in> set es \<and> now - timestamp c > CACHE_TTL then None else map_of m k)"
  by (induction now es m rule: cleanup_loop.induct) (auto simp: delete_conv')

lemma map_of_cleanupExpiredCache:
  assumes "distinct (map fst m)"
  shows "map_of (cleanupExpiredCache now m) k =
     (case map_of m k of
        None \<Rightarrow> None
      | Some c \<Rightarrow> if now - timestamp c > CACHE_TTL then None else Some c)"
proof (cases "map_of m k")
  case None
  then show ?thesis
    by (simp add: cleanupExpiredCache_def map_of_cleanup_loop)
next
  case (Some c)
  with assms have "(k, c') \<in> set m \<longleftrightarrow> c' = c" for c'
    by (metis map_of_eq_Some_iff option.inject)
  with Some show ?thesis
    by (simp add: cleanupExpiredCache_def map_of_cleanup_loop)
qed

lemma cleanupExpiredCache_distinct:
  "distinct (map fst m) \<Longrightarrow> distinct (map fst (cleanupExpiredCache now m))"
  by (simp add: cleanupExpiredCache_def cleanup_loop_distinct)

lemma getOrPopulate_hit:
  assumes "wf_state st" "map_of (subtitleCache st) (getCacheKey w u) = Some e"
    "now_cleanup w - timestamp e \<le> CACHE_TTL"
  shows "getOrPopulate w u sz st =
           (Inr e, st\<lparr>subtitleCache := cleanupExpiredCache (now_cleanup w) (subtitleCache st)\<rparr>)"
    and "map_of (cleanupExpiredCache (now_cleanup w) (subtitleCache st)) (getCacheKey w u) = Some e"
  using assms by (simp_all add: getOrPopulate_def wf_state_def map_of_cleanupExpiredCache)

lemma getOrPopulate_miss:
  assumes "map_of (cleanupExpiredCache (now_cleanup w) (subtitleCache st)) (getCacheKey w u) = None"
    "downloadSubtitles w u = Inr c" "chunkText c sz = Inr cs"
  shows "getOrPopulate w u sz st =
           (Inr \<lparr>url = u, content = c, chunks = cs, timestamp = now_store w\<rparr>,
            st\<lparr>subtitleCache := AList.update (getCacheKey w u)
                                 \<lparr>url = u, content = c, chunks = cs, timestamp = now_store w\<rparr>
                                 (cleanupExpiredCache (now_cleanup w) (subtitleCache st)),
               downloads := downloads st @ [u]\<rparr>)"
  using assms by (simp add: getOrPopulate_def Let_def)

text \<open>On a miss the transcript source is called, whatever comes of the call.\<close>

lemma getOrPopulate_miss_downloads:
  assumes "map_of (cleanupExpiredCache (now_cleanup w) (subtitleCache st)) (getCacheKey w u) = None"
  shows "downloads (snd (getOrPopulate w u sz st)) = downloads st @ [u]"
  using assms by (simp add: getOrPopulate_def Let_def split: sum.splits)

lemma getOrPopulate_miss_throws:
  assumes "map_of (cleanupExpiredCache (now_cleanup w) (subtitleCache st)) (getCacheKey w u) = None"
    "downloadSubtitles w u = Inl err \<or>
     (\<exists>c. downloadSubtitles w u = Inr c \<and> chunkText c sz = Inl err)"
  shows "getOrPopulate w u sz st =
           (Inl err, st\<lparr>subtitleCache := cleanupExpiredCache (now_cleanup w) (subtitleCache st),
                        downloads := downloads st @ [u]\<rparr>)"
  using assms by (auto simp: getOrPopulate_def Let_def)

lemma getOrPopulate_wf:
  assumes "wf_state st" "getOrPopulate w u sz st = (r, st')"
  shows "wf_state st'"
  using assms cleanupExpiredCache_distinct[of "subtitleCache st" "now_cleanup w"]
  by (auto simp: getOrPopulate_def wf_state_def Let_def distinct_update
      split: option.splits sum.splits)

lemma getOrPopulate_stores:
  assumes "getOrPopulate w u sz st = (Inr e, st')"
  shows "map_of (subtitleCache st') (getCacheKey w u) = Some e"
  using assms
  by (auto simp: getOrPopulate_def Let_def update_conv' split: option.splits sum.splits)

text \<open>
  The download of a URL for which \<^verbatim>\<open>yt-dlp\<close> wrote a file is not empty: it starts
  with the name of the file and the separator line.
\<close>

lemma downloadSubtitles_foldl_nonempty:
  "acc \<noteq> [] \<or> files \<noteq> [] \<Longrightarrow>
   foldl (\<lambda>acc (file, fileContent).
            acc @ file @ ''\<newline>====================\<newline>'' @ stripVttNonContent fileContent)
     acc files \<noteq> []"
  by (induction files arbitrary: acc) (auto split: prod.splits)

lemma downloadSubtitles_nonempty:
  "yt_dlp w u = Inr files \<Longrightarrow> files \<noteq> [] \<Longrightarrow> \<exists>c. downloadSubtitles w u = Inr c \<and> c \<noteq> []"
  using downloadSubtitles_foldl_nonempty[of "[]" files]
  by (simp add: downloadSubtitles_def)

lemma downloadSubtitles_no_files:
  "yt_dlp w u = Inr [] \<Longrightarrow> downloadSubtitles w u = Inr []"
  by (simp add: downloadSubtitles_def)

text \<open>
  On a miss with a non-empty download, a negative \<^verbatim>\<open>chunk_size\<close> reaches
  \<^verbatim>\<open>chunkText\<close>, which throws; the handler returns the error envelope, and nothing is
  stored.
\<close>

lemma handleGetYoutubeSubtitles_negative_size:
  assumes "map_of (cleanupExpiredCache (now_cleanup w) (subtitleCache st))
             (getCacheKey w (arg_url args)) = None"
    and "downloadSubtitles w (arg_url args) = Inr c" and "c \<noteq> []"
    and "chunk_size args = Some n" and "n < 0"
  shows "handleGetYoutubeSubtitles w args st =
           (\<lparr>result_text = Some ''Error getting subtitles: RangeError: Invalid array length'',
             isError = True\<rparr>,
            st\<lparr>subtitleCache := cleanupExpiredCache (now_cleanup w) (subtitleCache st),
               downloads := downloads st @ [arg_url args]\<rparr>)"
proof -
  from assms(3,5) have "chunkText c n = Inl ''RangeError: Invalid array length''"
    by (intro chunkText_throws) simp_all
  with assms(2) have "getOrPopulate w (arg_url args) n st =
      (Inl ''RangeError: Invalid array length'',
       st\<lparr>subtitleCache := cleanupExpiredCache (now_cleanup w) (subtitleCache st),
          downloads := downloads st @ [arg_url args]\<rparr>)"
    by (intro getOrPopulate_miss_throws[OF assms(1)]) simp
  with assms(4,5) show ?thesis
    by (simp add: handleGetYoutubeSubtitles_def)
qed

text \<open>
  C3. Every size that a \<^verbatim>\<open>get_youtube_subtitles\<close> request passes to \<^verbatim>\<open>chunkText\<close> is
  positive, so that \<^verbatim>\<open>chunkText\<close> returns. The source replaces a missing size and the
  size 0 by the default, but passes a negative size on: with an empty cache, a download
  of one file and \<^verbatim>\<open>chunk_size = -1\<close>, \<^verbatim>\<open>chunkText\<close> is called with \<open>-1\<close> and throws
  \<^verbatim>\<open>RangeError: Invalid array length\<close>; the handler answers with the error envelope
  and caches nothing.
\<close>

theorem negative_chunk_size_reaches_chunkText:
  "chunkText ''v.en.vtt\<newline>====================\<newline>Hello'' (- 1)
     = Inl ''RangeError: Invalid array length'' \<and>
   handleGetYoutubeSubtitles
     \<lparr>md5_hex = (\<lambda>u. u), now_cleanup = 0, now_store = 0,
      yt_dlp = (\<lambda>u. Inr [(''v.en.vtt'', ''WEBVTT\<newline>\<newline>\<newline>\<newline>Hello'')]),
      big_number_text = (\<lambda>n. ''1e+21'')\<rparr>
     \<lparr>arg_url = ''u'', chunk_index = 0, chunk_size = Some (- 1)\<rparr>
     \<lparr>subtitleCache = [], downloads = []\<rparr>
   = (\<lparr>result_text = Some ''Error getting subtitles: RangeError: Invalid array length'',
       isError = True\<rparr>,
      \<lparr>subtitleCache = [], downloads = [''u'']\<rparr>)"
  (is "?throws \<and> handleGetYoutubeSubtitles ?w ?args ?st = ?result")
proof
  show ?throws
    by (rule chunkText_throws) simp_all
next
  have miss: "map_of (cleanupExpiredCache (now_cleanup ?w) (subtitleCache ?st))
                (getCacheKey ?w (arg_url ?args)) = None"
    by (simp add: cleanupExpiredCache_def)
  have dl: "downloadSubtitles ?w (arg_url ?args)
              = Inr ''v.en.vtt\<newline>====================\<newline>Hello''"
    by code_simp
  have "handleGetYoutubeSubtitles ?w ?args ?st =
          (\<lparr>result_text = Some ''Error getting subtitles: RangeError: Invalid array length'',
            isError = True\<rparr>,
           ?st\<lparr>subtitleCache := cleanupExpiredCache (now_cleanup ?w) (subtitleCache ?st),
               downloads := downloads ?st @ [arg_url ?args]\<rparr>)"
    by (rule handleGetYoutubeSubtitles_negative_size[OF miss dl, of "- 1"]) simp_all
  then show "handleGetYoutubeSubtitles ?w ?args ?st = ?result"
    by (simp add: cleanupExpiredCache_def)
qed

section \<open>A request that finds its entry\<close>

text \<open>
  C2. When the cache holds an entry for the URL that the sweep leaves in place, either
  handler returns without calling the transcript source, answers from that entry, and
  leaves the entry as it was, whatever the \<^verbatim>\<open>chunk_size\<close> and \<^verbatim>\<open>chunk_index\<close> of
  the request.
\<close>

theorem cache_hit_returns_stored_entry:
  assumes "wf_state st"
    and "map_of (subtitleCache st) (getCacheKey w u) = Some e"
    and "now_cleanup w - timestamp e \<le> CACHE_TTL"
  shows "(\<exists>st'. handleDownloadYoutubeUrl w u st = (first_chunk_response e, st') \<and>
            map_of (subtitleCache st') (getCacheKey w u) = Some e \<and>
            downloads st' = downloads st) \<and>
         (\<forall>idx sz. \<exists>st'.
            handleGetYoutubeSubtitles w \<lparr>arg_url = u, chunk_index = idx, chunk_size = sz\<rparr> st
              = (chunk_response w e idx, st') \<and>
            map_of (subtitleCache st') (getCacheKey w u) = Some e \<and>
            downloads st' = downloads st)"
  using getOrPopulate_hit[OF assms]
  by (simp add: handleDownloadYoutubeUrl_def handleGetYoutubeSubtitles_def Let_def)

theorem cache_hit_returns_stored_entry_witness:
  "wf_state \<lparr>subtitleCache = [(''k'', \<lparr>url = ''u'', content = ''abcde'', chunks = [''abc'', ''de''],
                                   timestamp = 1000\<rparr>)], downloads = [''u'']\<rparr> \<and>
   (\<exists>st'. handleGetYoutubeSubtitles
            \<lparr>md5_hex = (\<lambda>u. ''k''), now_cleanup = 1801000, now_store = 1801000,
             yt_dlp = (\<lambda>u. Inr []), big_number_text = (\<lambda>n. ''1e+21'')\<rparr>
            \<lparr>arg_url = ''u'', chunk_index = 1, chunk_size = Some 2\<rparr>
            \<lparr>subtitleCache = [(''k'', \<lparr>url = ''u'', content = ''abcde'', chunks = [''abc'', ''de''],
                                     timestamp = 1000\<rparr>)], downloads = [''u'']\<rparr>
          = (chunk_response
               \<lparr>md5_hex = (\<lambda>u. ''k''), now_cleanup = 1801000, now_store = 1801000,
                yt_dlp = (\<lambda>u. Inr []), big_number_text = (\<lambda>n. ''1e+21'')\<rparr>
               \<lparr>url = ''u'', content = ''abcde'', chunks = [''abc'', ''de''], timestamp = 1000\<rparr> 1,
             st') \<and>
          map_of (subtitleCache st') ''k''
            = Some \<lparr>url = ''u'', content = ''abcde'', chunks = [''abc'', ''de''], timestamp = 1000\<rparr> \<and>
          downloads st' = [''u''])"
  (is "wf_state ?st \<and> (\<exists>st'. handleGetYoutubeSubtitles ?w ?args ?st = (chunk_response _ ?e 1, st') \<and> _)")
proof -
  have wf: "wf_state ?st"
    by (simp add: wf_state_def)
  have hit: "map_of (subtitleCache ?st) (getCacheKey ?w ''u'') = Some ?e"
    by (simp add: getCacheKey_def)
  have fresh: "now_cleanup ?w - timestamp ?e \<le> CACHE_TTL"
    by (simp add: CACHE_TTL_def)
  show ?thesis
    using wf cache_hit_returns_stored_entry[OF wf hit fresh]
    by (simp add: getCacheKey_def)
qed

section \<open>Expiry\<close>

text \<open>
  C4, as stated: the sweep removes every entry whose age is at least the TTL, and a
  request made when the entry has that age fetches again and stores an entry with a
  later timestamp. It fails in four places. An entry whose age is exactly the TTL is
  kept: the source deletes when \<^verbatim>\<open>now - cache.timestamp > CACHE_TTL\<close>. When the download
  fails, the expired entry is gone and nothing is stored. When the clock has gone back
  between the sweep and the store, the new timestamp is not later. When \<^verbatim>\<open>chunkText\<close>
  throws, nothing is stored.
\<close>

theorem expiry_claim_counterexamples:
  "(1800000::int) - 0 \<ge> CACHE_TTL \<and>
   map_of (cleanupExpiredCache 1800000
             [(''k'', \<lparr>url = ''u'', content = ''abc'', chunks = [''abc''], timestamp = 0\<rparr>)]) ''k''
     = Some \<lparr>url = ''u'', content = ''abc'', chunks = [''abc''], timestamp = 0\<rparr> \<and>
   handleDownloadYoutubeUrl
     \<lparr>md5_hex = (\<lambda>u. ''k''), now_cleanup = 1800001, now_store = 1800002,
      yt_dlp = (\<lambda>u. Inl ''Error: no subtitles''), big_number_text = (\<lambda>n. ''1e+21'')\<rparr>
     ''u''
     \<lparr>subtitleCache = [(''k'', \<lparr>url = ''u'', content = ''abc'', chunks = [''abc''],
                              timestamp = 0\<rparr>)], downloads = [''u'']\<rparr>
     = (\<lparr>result_text = Some ''Error downloading video: Error: no subtitles'', isError = True\<rparr>,
        \<lparr>subtitleCache = [], downloads = [''u'', ''u'']\<rparr>) \<and>
   handleDownloadYoutubeUrl
     \<lparr>md5_hex = (\<lambda>u. ''k''), now_cleanup = 1802001, now_store = 1500,
      yt_dlp = (\<lambda>u. Inr []), big_number_text = (\<lambda>n. ''1e+21'')\<rparr>
     ''u''
     \<lparr>subtitleCache = [(''k'', \<lparr>url = ''u'', content = ''abc'', chunks = [''abc''],
                              timestamp = 2000\<rparr>)], downloads = [''u'']\<rparr>
     = (\<lparr>result_text = None, isError = False\<rparr>,
        \<lparr>subtitleCache = [(''k'', \<lparr>url = ''u'', content = [], chunks = [], timestamp = 1500\<rparr>)],
         downloads = [''u'', ''u'']\<rparr>) \<and>
   handleGetYoutubeSubtitles
     \<lparr>md5_hex = (\<lambda>u. ''k''), now_cleanup = 1800001, now_store = 1800002,
      yt_dlp = (\<lambda>u. Inr [(''v.en.vtt'', ''WEBVTT\<newline>\<newline>\<newline>\<newline>Hello'')]),
      big_number_text = (\<lambda>n. ''1e+21'')\<rparr>
     \<lparr>arg_url = ''u'', chunk_index = 0, chunk_size = Some (- 1)\<rparr>
     \<lparr>subtitleCache = [(''k'', \<lparr>url = ''u'', content = ''abc'', chunks = [''abc''],
                              timestamp = 0\<rparr>)], downloads = [''u'']\<rparr>
     = (\<lparr>result_text = Some ''Error getting subtitles: RangeError: Invalid array length'',
         isError = True\<rparr>,
        \<lparr>subtitleCache = [], downloads = [''u'', ''u'']\<rparr>)"
  (is "?age \<and> ?kept \<and> ?failed \<and> ?clock \<and> handleGetYoutubeSubtitles ?w ?args ?st = ?r")
proof (intro conjI)
  show ?age by (simp add: CACHE_TTL_def)
  show ?kept by (simp add: cleanupExpiredCache_def CACHE_TTL_def)
  show ?failed
    by (simp add: handleDownloadYoutubeUrl_def getOrPopulate_def cleanupExpiredCache_def
        CACHE_TTL_def getCacheKey_def downloadSubtitles_def AList.delete_eq)
  show ?clock
    by (simp add: handleDownloadYoutubeUrl_def getOrPopulate_def cleanupExpiredCache_def
        CACHE_TTL_def getCacheKey_def downloadSubtitles_def AList.delete_eq chunkText_Nil
        first_chunk_response_def Let_def)
  have miss: "map_of (cleanupExpiredCache (now_cleanup ?w) (subtitleCache ?st))
                (getCacheKey ?w (arg_url ?args)) = None"
    by (simp add: cleanupExpiredCache_def CACHE_TTL_def getCacheKey_def AList.delete_eq)
  have dl: "downloadSubtitles ?w (arg_url ?args)
              = Inr ''v.en.vtt\<newline>====================\<newline>Hello''"
    by code_simp
  have "handleGetYoutubeSubtitles ?w ?args ?st =
          (\<lparr>result_text = Some ''Error getting subtitles: RangeError: Invalid array length'',
            isError = True\<rparr>,
           ?st\<lparr>subtitleCache := cleanupExpiredCache (now_cleanup ?w) (subtitleCache ?st),
               downloads := downloads ?st @ [arg_url ?args]\<rparr>)"
    by (rule handleGetYoutubeSubtitles_negative_size[OF miss dl, of "- 1"]) simp_all
  then show "handleGetYoutubeSubtitles ?w ?args ?st = ?r"
    by (simp add: cleanupExpiredCache_def CACHE_TTL_def AList.delete_eq)
qed

text \<open>
  C4, amended: the sweep at time \<open>now\<close> removes every entry whose age is greater than
  the TTL and no entry whose age is at most the TTL. Every request for a URL whose
  entry is older than the TTL calls the transcript source. When the download succeeds
  and \<^verbatim>\<open>chunkText\<close> returns the chunks (as it does with the default size), the request
  stores an entry with the clock reading of the store as timestamp, which is later
  than the old timestamp when the clock has not gone back since the sweep.
\<close>

theorem sweep_removes_older_than_ttl:
  assumes "wf_state st"
  shows "(\<forall>key. map_of (cleanupExpiredCache now (subtitleCache st)) key =
            (case map_of (subtitleCache st) key of
               None \<Rightarrow> None
             | Some c \<Rightarrow> if now - timestamp c > CACHE_TTL then None else Some c)) \<and>
         (\<forall>e. map_of (subtitleCache st) (getCacheKey w u) = Some e \<and>
               now_cleanup w - timestamp e > CACHE_TTL \<longrightarrow>
            (\<exists>r st'. handleDownloadYoutubeUrl w u st = (r, st') \<and>
               downloads st' = downloads st @ [u] \<and>
               (\<forall>c. downloadSubtitles w u = Inr c \<longrightarrow>
                  (\<exists>e'. map_of (subtitleCache st') (getCacheKey w u) = Some e' \<and>
                     content e' = c \<and> timestamp e' = now_store w \<and>
                     (now_cleanup w \<le> now_store w \<longrightarrow> timestamp e < timestamp e')))) \<and>
            (\<forall>idx sz. \<exists>r st'.
               handleGetYoutubeSubtitles w \<lparr>arg_url = u, chunk_index = idx, chunk_size = sz\<rparr> st
                 = (r, st') \<and>
               downloads st' = downloads st @ [u] \<and>
               (\<forall>c cs. downloadSubtitles w u = Inr c \<and>
                        chunkText c (case sz of None \<Rightarrow> DEFAULT_CHUNK_SIZE
                                     | Some n \<Rightarrow> if n = 0 then DEFAULT_CHUNK_SIZE else n)
                          = Inr cs \<longrightarrow>
                  (\<exists>e'. map_of (subtitleCache st') (getCacheKey w u) = Some e' \<and>
                     content e' = c \<and> chunks e' = cs \<and> timestamp e' = now_store w \<and>
                     (now_cleanup w \<le> now_store w \<longrightarrow> timestamp e < timestamp e')))))"
proof (intro conjI allI impI)
  fix key
  show "map_of (cleanupExpiredCache now (subtitleCache st)) key =
          (case map_of (subtitleCache st) key of
             None \<Rightarrow> None
           | Some c \<Rightarrow> if now - timestamp c > CACHE_TTL then None else Some c)"
    using assms by (simp add: wf_state_def map_of_cleanupExpiredCache)
next
  fix e
  assume a: "map_of (subtitleCache st) (getCacheKey w u) = Some e \<and>
             now_cleanup w - timestamp e > CACHE_TTL"
  have "distinct (map fst (subtitleCache st))"
    using assms by (simp add: wf_state_def)
  note sweep = map_of_cleanupExpiredCache[OF this, of "now_cleanup w" "getCacheKey w u"]
  from a have "map_of (subtitleCache st) (getCacheKey w u) = Some e"
    and old: "now_cleanup w - timestamp e > CACHE_TTL" by blast+
  then have miss: "map_of (cleanupExpiredCache (now_cleanup w) (subtitleCache st))
                     (getCacheKey w u) = None"
    unfolding sweep by simp
  have later: "timestamp e < now_store w" if "now_cleanup w \<le> now_store w"
    using that old by (simp add: CACHE_TTL_def)
  have stored: "\<exists>e'. map_of (subtitleCache (snd (getOrPopulate w u sz st))) (getCacheKey w u)
                       = Some e' \<and>
                     content e' = c \<and> chunks e' = cs \<and> timestamp e' = now_store w \<and>
                     (now_cleanup w \<le> now_store w \<longrightarrow> timestamp e < timestamp e')"
    if "downloadSubtitles w u = Inr c" "chunkText c sz = Inr cs" for sz c cs
    using later by (simp add: getOrPopulate_miss[OF miss that] update_conv')
  let ?p = "getOrPopulate w u DEFAULT_CHUNK_SIZE st"
  have "handleDownloadYoutubeUrl w u st = (fst (handleDownloadYoutubeUrl w u st), snd ?p)"
    by (simp add: handleDownloadYoutubeUrl_def split: prod.splits sum.splits)
  moreover have "downloads (snd ?p) = downloads st @ [u]"
    by (rule getOrPopulate_miss_downloads[OF miss])
  moreover have "\<exists>e'. map_of (subtitleCache (snd ?p)) (getCacheKey w u) = Some e' \<and>
                   content e' = c \<and> timestamp e' = now_store w \<and>
                   (now_cleanup w \<le> now_store w \<longrightarrow> timestamp e < timestamp e')"
    if dl: "downloadSubtitles w u = Inr c" for c
  proof -
    obtain cs where "chunkText c DEFAULT_CHUNK_SIZE = Inr cs"
      using chunkText_total[of DEFAULT_CHUNK_SIZE c] by (auto simp: DEFAULT_CHUNK_SIZE_def)
    from stored[OF dl this] show ?thesis by blast
  qed
  ultimately
  show "\<exists>r st'. handleDownloadYoutubeUrl w u st = (r, st') \<and>
          downloads st' = downloads st @ [u] \<and>
          (\<forall>c. downloadSubtitles w u = Inr c \<longrightarrow>
             (\<exists>e'. map_of (subtitleCache st') (getCacheKey w u) = Some e' \<and>
                content e' = c \<and> timestamp e' = now_store w \<and>
                (now_cleanup w \<le> now_store w \<longrightarrow> timestamp e < timestamp e')))"
    by blast
  fix idx :: int and sz :: "int option"
  let ?size = "case sz of None \<Rightarrow> DEFAULT_CHUNK_SIZE
               | Some n \<Rightarrow> if n = 0 then DEFAULT_CHUNK_SIZE else n"
  let ?args = "\<lparr>arg_url = u, chunk_index = idx, chunk_size = sz\<rparr>"
  let ?q = "getOrPopulate w u ?size st"
  have "handleGetYoutubeSubtitles w ?args st = (fst (handleGetYoutubeSubtitles w ?args st), snd ?q)"
    by (simp add: handleGetYoutubeSubtitles_def split: prod.splits sum.splits)
  moreover have "downloads (snd ?q) = downloads st @ [u]"
    by (rule getOrPopulate_miss_downloads[OF miss])
  moreover have "\<forall>c cs. downloadSubtitles w u = Inr c \<and> chunkText c ?size = Inr cs \<longrightarrow>
                   (\<exists>e'. map_of (subtitleCache (snd ?q)) (getCacheKey w u) = Some e' \<and>
                      content e' = c \<and> chunks e' = cs \<and> timestamp e' = now_store w \<and>
                      (now_cleanup w \<le> now_store w \<longrightarrow> timestamp e < timestamp e'))"
    using stored by blast
  ultimately
  show "\<exists>r st'. handleGetYoutubeSubtitles w ?args st = (r, st') \<and>
          downloads st' = downloads st @ [u] \<and>
          (\<forall>c cs. downloadSubtitles w u = Inr c \<and> chunkText c ?size = Inr cs \<longrightarrow>
             (\<exists>e'. map_of (subtitleCache st') (getCacheKey w u) = Some e' \<and>
                content e' = c \<and> chunks e' = cs \<and> timestamp e' = now_store w \<and>
                (now_cleanup w \<le> now_store w \<longrightarrow> timestamp e < timestamp e')))"
    by blast
qed

theorem sweep_removes_older_than_ttl_witness:
  "wf_state \<lparr>subtitleCache = [(''k'', \<lparr>url = ''u'', content = ''old'', chunks = [''old''],
                                   timestamp = 0\<rparr>)], downloads = [''u'']\<rparr> \<and>
   map_of (cleanupExpiredCache 1800001
             [(''k'', \<lparr>url = ''u'', content = ''old'', chunks = [''old''], timestamp = 0\<rparr>)]) ''k''
     = None \<and>
   (\<exists>r st' e'.
      handleDownloadYoutubeUrl
        \<lparr>md5_hex = (\<lambda>u. ''k''), now_cleanup = 1800001, now_store = 1800002,
         yt_dlp = (\<lambda>u. Inr [(''v.en.vtt'', ''WEBVTT\<newline>\<newline>\<newline>\<newline>Hello'')]),
         big_number_text = (\<lambda>n. ''1e+21'')\<rparr>
        ''u''
        \<lparr>subtitleCache = [(''k'', \<lparr>url = ''u'', content = ''old'', chunks = [''old''],
                                 timestamp = 0\<rparr>)], downloads = [''u'']\<rparr>
        = (r, st') \<and>
      downloads st' = [''u'', ''u''] \<and>
      map_of (subtitleCache st') ''k'' = Some e' \<and>
      content e' = ''v.en.vtt\<newline>====================\<newline>Hello'' \<and>
      timestamp e' = 1800002 \<and> 0 < timestamp e') \<and>
   (\<exists>r st' e'.
      handleGetYoutubeSubtitles
        \<lparr>md5_hex = (\<lambda>u. ''k''), now_cleanup = 1800001, now_store = 1800002,
         yt_dlp = (\<lambda>u. Inr [(''v.en.vtt'', ''WEBVTT\<newline>\<newline>\<newline>\<newline>Hello'')]),
         big_number_text = (\<lambda>n. ''1e+21'')\<rparr>
        \<lparr>arg_url = ''u'', chunk_index = 0, chunk_size = Some 20\<rparr>
        \<lparr>subtitleCache = [(''k'', \<lparr>url = ''u'', content = ''old'', chunks = [''old''],
                                 timestamp = 0\<rparr>)], downloads = [''u'']\<rparr>
        = (r, st') \<and>
      downloads st' = [''u'', ''u''] \<and>
      map_of (subtitleCache st') ''k'' = Some e' \<and>
      chunks e' = [''v.en.vtt\<newline>==========='', ''=========\<newline>Hello''] \<and>
      timestamp e' = 1800002 \<and> 0 < timestamp e')"
  (is "wf_state ?st \<and> _ \<and> (\<exists>r st' e'. handleDownloadYoutubeUrl ?w ''u'' ?st = (r, st') \<and> _) \<and>
       (\<exists>r st' e'. handleGetYoutubeSubtitles _ ?args _ = (r, st') \<and> _)")
proof -
  let ?e = "\<lparr>url = ''u'', content = ''old'', chunks = [''old''], timestamp = 0\<rparr>"
  let ?c = "''v.en.vtt\<newline>====================\<newline>Hello''"
  have wf: "wf_state ?st"
    by (simp add: wf_state_def)
  have dl: "downloadSubtitles ?w ''u'' = Inr ?c"
    by code_simp
  have expired: "map_of (subtitleCache ?st) (getCacheKey ?w ''u'') = Some ?e \<and>
                 now_cleanup ?w - timestamp ?e > CACHE_TTL"
    by (simp add: getCacheKey_def CACHE_TTL_def)
  have clock: "now_cleanup ?w \<le> now_store ?w"
    by simp
  note inst = sweep_removes_older_than_ttl[OF wf, of 1800001 ?w "''u''"]
  from inst have swept: "map_of (cleanupExpiredCache 1800001 (subtitleCache ?st)) ''k'' = None"
    by (simp add: CACHE_TTL_def)
  from inst expired obtain r st' where r: "handleDownloadYoutubeUrl ?w ''u'' ?st = (r, st')"
    "downloads st' = downloads ?st @ [''u'']"
    "\<forall>c. downloadSubtitles ?w ''u'' = Inr c \<longrightarrow>
       (\<exists>e'. map_of (subtitleCache st') (getCacheKey ?w ''u'') = Some e' \<and>
          content e' = c \<and> timestamp e' = now_store ?w \<and>
          (now_cleanup ?w \<le> now_store ?w \<longrightarrow> timestamp ?e < timestamp e'))"
    by blast
  from r(3) dl clock obtain e' where
    "map_of (subtitleCache st') (getCacheKey ?w ''u'') = Some e'" "content e' = ?c"
    "timestamp e' = now_store ?w" "timestamp ?e < timestamp e'"
    by blast
  with r(1,2) have first: "\<exists>r st' e'. handleDownloadYoutubeUrl ?w ''u'' ?st = (r, st') \<and>
      downloads st' = [''u'', ''u''] \<and> map_of (subtitleCache st') ''k'' = Some e' \<and>
      content e' = ?c \<and> timestamp e' = 1800002 \<and> 0 < timestamp e'"
    by (auto simp: getCacheKey_def)
  let ?cs = "[''v.en.vtt\<newline>==========='', ''=========\<newline>Hello'']"
  have ch: "chunkText ?c (case Some 20 of None \<Rightarrow> DEFAULT_CHUNK_SIZE
                          | Some n \<Rightarrow> if n = 0 then DEFAULT_CHUNK_SIZE else n) = Inr ?cs"
    by code_simp
  from inst expired obtain q st'' where q: "handleGetYoutubeSubtitles ?w ?args ?st = (q, st'')"
    "downloads st'' = downloads ?st @ [''u'']"
    "\<forall>c cs. downloadSubtitles ?w ''u'' = Inr c \<and>
            chunkText c (case Some 20 of None \<Rightarrow> DEFAULT_CHUNK_SIZE
                         | Some n \<Rightarrow> if n = 0 then DEFAULT_CHUNK_SIZE else n) = Inr cs \<longrightarrow>
       (\<exists>e'. map_of (subtitleCache st'') (getCacheKey ?w ''u'') = Some e' \<and>
          content e' = c \<and> chunks e' = cs \<and> timestamp e' = now_store ?w \<and>
          (now_cleanup ?w \<le> now_store ?w \<longrightarrow> timestamp ?e < timestamp e'))"
    by blast
  from q(3) dl ch clock obtain e'' where
    "map_of (subtitleCache st'') (getCacheKey ?w ''u'') = Some e''" "chunks e'' = ?cs"
    "timestamp e'' = now_store ?w" "timestamp ?e < timestamp e''"
    by blast
  with q(1,2) have "\<exists>r st' e'. handleGetYoutubeSubtitles ?w ?args ?st = (r, st') \<and>
      downloads st' = [''u'', ''u''] \<and> map_of (subtitleCache st') ''k'' = Some e' \<and>
      chunks e' = ?cs \<and> timestamp e' = 1800002 \<and> 0 < timestamp e'"
    by (auto simp: getCacheKey_def)
  with swept first show ?thesis
    using wf by simp
qed

section \<open>Pagination\<close>

lemma set_nat_to_string: "set (nat_to_string n) \<subseteq> set ''0123456789''"
proof (induction n rule: nat_to_string.induct)
  case (1 n)
  have digit: "''0123456789'' ! k \<in> set ''0123456789''" if "k < 10" for k
    using that by (intro nth_mem) simp
  show ?case
  proof (cases "n < 10")
    case True
    with digit[of n] show ?thesis
      by (subst nat_to_string.simps) simp
  next
    case False
    with 1 digit[of "n mod 10"] show ?thesis
      by (subst nat_to_string.simps) simp
  qed
qed

lemma nat_to_string_no_x: "CHR ''x'' \<notin> set (nat_to_string n)"
  using set_nat_to_string[of n] by auto

lemma num_to_string_no_x: "CHR ''x'' \<notin> set (num_to_string i)"
  by (simp add: num_to_string_def nat_to_string_no_x)

lemma js_includes_chars: "js_includes s sub \<Longrightarrow> set sub \<subseteq> set s"
  by (auto simp: js_includes_iff)

text \<open>The footer of the last chunk has no letter \<open>x\<close>, so it cannot say \<open>next\<close>.\<close>

lemma last_footer_no_x:
  assumes "idx = int (length (chunks e)) - 1"
  shows "CHR ''x'' \<notin> set (pagination_footer e idx)"
  using assms
  by (simp add: pagination_footer_def Let_def nat_to_string_no_x num_to_string_no_x)

text \<open>
  C8. When the cache holds an unexpired entry for the URL, \<^verbatim>\<open>get_youtube_subtitles\<close>
  with an index below 0 or at least the number of chunks returns an error envelope
  whose text echoes the index and ends by naming the range from 0 to the number of
  chunks minus 1; the echo is the index in decimal when its magnitude is at most
  \<open>2^53\<close>. With an index in the range the handler returns the chunk and its footer,
  without the error flag.
\<close>

theorem chunk_index_out_of_range:
  assumes "wf_state st"
    and "map_of (subtitleCache st) (getCacheKey w u) = Some e"
    and "now_cleanup w - timestamp e \<le> CACHE_TTL"
  shows "(idx < 0 \<or> int (length (chunks e)) \<le> idx \<longrightarrow>
            (\<exists>st'. handleGetYoutubeSubtitles w
                      \<lparr>arg_url = u, chunk_index = idx, chunk_size = sz\<rparr> st
               = (\<lparr>result_text =
                     Some (''Error: chunk_index '' @ js_number_text w idx
                           @ '' is out of range. Available chunks: 0-''
                           @ num_to_string (int (length (chunks e)) - 1)),
                   isError = True\<rparr>, st')) \<and>
            (\<bar>idx\<bar> \<le> 2 ^ 53 \<longrightarrow> js_number_text w idx = num_to_string idx)) \<and>
         (0 \<le> idx \<and> idx < int (length (chunks e)) \<longrightarrow>
            (\<exists>st'. handleGetYoutubeSubtitles w
                      \<lparr>arg_url = u, chunk_index = idx, chunk_size = sz\<rparr> st
               = (\<lparr>result_text = Some (chunks e ! nat idx @ pagination_footer e idx),
                   isError = False\<rparr>, st')))"
  using getOrPopulate_hit(1)[OF assms]
  by (simp add: handleGetYoutubeSubtitles_def Let_def chunk_response_def js_number_text_def)

theorem chunk_index_out_of_range_witness:
  "wf_state \<lparr>subtitleCache = [(''k'', \<lparr>url = ''u'', content = ''abcde'', chunks = [''abc'', ''de''],
                                   timestamp = 1000\<rparr>)], downloads = [''u'']\<rparr> \<and>
   ((- 1::int) < 0 \<or> int (length [''abc'', ''de'']) \<le> - 1) \<and>
   (\<exists>st'. handleGetYoutubeSubtitles
            \<lparr>md5_hex = (\<lambda>u. ''k''), now_cleanup = 2000, now_store = 2000,
             yt_dlp = (\<lambda>u. Inr []), big_number_text = (\<lambda>n. ''1e+21'')\<rparr>
            \<lparr>arg_url = ''u'', chunk_index = - 1, chunk_size = None\<rparr>
            \<lparr>subtitleCache = [(''k'', \<lparr>url = ''u'', content = ''abcde'', chunks = [''abc'', ''de''],
                                     timestamp = 1000\<rparr>)], downloads = [''u'']\<rparr>
          = (\<lparr>result_text =
                Some ''Error: chunk_index -1 is out of range. Available chunks: 0-1'',
              isError = True\<rparr>, st')) \<and>
   (\<exists>st'. handleGetYoutubeSubtitles
            \<lparr>md5_hex = (\<lambda>u. ''k''), now_cleanup = 2000, now_store = 2000,
             yt_dlp = (\<lambda>u. Inr []), big_number_text = (\<lambda>n. ''1e+21'')\<rparr>
            \<lparr>arg_url = ''u'', chunk_index = 2, chunk_size = None\<rparr>
            \<lparr>subtitleCache = [(''k'', \<lparr>url = ''u'', content = ''abcde'', chunks = [''abc'', ''de''],
                                     timestamp = 1000\<rparr>)], downloads = [''u'']\<rparr>
          = (\<lparr>result_text =
                Some ''Error: chunk_index 2 is out of range. Available chunks: 0-1'',
              isError = True\<rparr>, st')) \<and>
   (\<exists>st'. handleGetYoutubeSubtitles
            \<lparr>md5_hex = (\<lambda>u. ''k''), now_cleanup = 2000, now_store = 2000,
             yt_dlp = (\<lambda>u. Inr []), big_number_text = (\<lambda>n. ''1e+21'')\<rparr>
            \<lparr>arg_url = ''u'', chunk_index = 1000000000000000000000, chunk_size = None\<rparr>
            \<lparr>subtitleCache = [(''k'', \<lparr>url = ''u'', content = ''abcde'', chunks = [''abc'', ''de''],
                                     timestamp = 1000\<rparr>)], downloads = [''u'']\<rparr>
          = (\<lparr>result_text =
                Some ''Error: chunk_index 1e+21 is out of range. Available chunks: 0-1'',
              isError = True\<rparr>, st'))"
  (is "wf_state ?st \<and> _ \<and> (\<exists>st'. handleGetYoutubeSubtitles ?w _ ?st = _) \<and> _ \<and> _")
proof -
  let ?e = "\<lparr>url = ''u'', content = ''abcde'', chunks = [''abc'', ''de''], timestamp = 1000\<rparr>"
  have wf: "wf_state ?st"
    by (simp add: wf_state_def)
  have hit: "map_of (subtitleCache ?st) (getCacheKey ?w ''u'') = Some ?e"
    by (simp add: getCacheKey_def)
  have fresh: "now_cleanup ?w - timestamp ?e \<le> CACHE_TTL"
    by (simp add: CACHE_TTL_def)
  have s1: "num_to_string (- 1) = ''-1''" and s2: "num_to_string 2 = ''2''"
    and s3: "num_to_string 1 = ''1''"
    by (simp_all add: num_to_string_def nat_to_string.simps)
  have j1: "js_number_text ?w (- 1) = ''-1''" and j2: "js_number_text ?w 2 = ''2''"
    by (simp_all add: js_number_text_def s1 s2)
  have big: "js_number_text ?w 1000000000000000000000 = ''1e+21''"
    by (simp add: js_number_text_def)
  show ?thesis
    using wf chunk_index_out_of_range[OF wf hit fresh, of "- 1" None]
      chunk_index_out_of_range[OF wf hit fresh, of 2 None]
      chunk_index_out_of_range[OF wf hit fresh, of 1000000000000000000000 None]
    by (simp add: s1 s2 s3 j1 j2 big)
qed

text \<open>
  C9. When the cache holds an unexpired entry for the URL and the index is valid, the
  response is the chunk followed by the footer. The footer reports the chunk number
  counted from 1, the number of chunks and the length of the chunk. For the last index
  it ends with the marker of the last chunk and has no hint at a next chunk; for an
  earlier index it ends with the hint that names the index plus 1.
\<close>

theorem pagination_footer_navigation:
  assumes "wf_state st"
    and "map_of (subtitleCache st) (getCacheKey w u) = Some e"
    and "now_cleanup w - timestamp e \<le> CACHE_TTL"
    and "0 \<le> idx" and "idx < int (length (chunks e))"
  shows "(\<exists>st'. handleGetYoutubeSubtitles w
                   \<lparr>arg_url = u, chunk_index = idx, chunk_size = sz\<rparr> st
            = (\<lparr>result_text = Some (chunks e ! nat idx @ pagination_footer e idx),
                     isError = False\<rparr>, st')) \<and>
         js_includes (pagination_footer e idx)
           (''This is chunk '' @ num_to_string (idx + 1)
            @ '' of '' @ num_to_string (int (length (chunks e)))
            @ '' ('' @ nat_to_string (length (chunks e ! nat idx)) @ '' characters)'') \<and>
         (idx = int (length (chunks e)) - 1 \<longrightarrow>
            suffix ''This is the last chunk.'' (pagination_footer e idx) \<and>
            \<not> js_includes (pagination_footer e idx) ''To get the next chunk'') \<and>
         (idx < int (length (chunks e)) - 1 \<longrightarrow>
            suffix (''To get the next chunk, use: get_youtube_subtitles with chunk_index=''
                    @ num_to_string (idx + 1))
              (pagination_footer e idx))"
proof (intro conjI impI)
  show "\<exists>st'. handleGetYoutubeSubtitles w
                 \<lparr>arg_url = u, chunk_index = idx, chunk_size = sz\<rparr> st
          = (\<lparr>result_text = Some (chunks e ! nat idx @ pagination_footer e idx),
                   isError = False\<rparr>, st')"
    using getOrPopulate_hit(1)[OF assms(1-3)] assms(4,5)
    by (simp add: handleGetYoutubeSubtitles_def Let_def chunk_response_def)
next
  let ?line = "''This is chunk '' @ num_to_string (idx + 1)
            @ '' of '' @ num_to_string (int (length (chunks e)))
            @ '' ('' @ nat_to_string (length (chunks e ! nat idx)) @ '' characters)''"
  have "\<exists>q. pagination_footer e idx
          = ''\<newline>\<newline>=== PAGINATION INFO ===\<newline>'' @ ?line @ q"
    by (simp add: pagination_footer_def Let_def)
  then show "js_includes (pagination_footer e idx) ?line"
    unfolding js_includes_iff by blast
next
  assume "idx = int (length (chunks e)) - 1"
  then have "\<exists>p. pagination_footer e idx = p @ ''This is the last chunk.''"
    by (simp add: pagination_footer_def Let_def)
  then show "suffix ''This is the last chunk.'' (pagination_footer e idx)"
    by (auto simp: suffix_def)
next
  assume last: "idx = int (length (chunks e)) - 1"
  show "\<not> js_includes (pagination_footer e idx) ''To get the next chunk''"
  proof
    assume "js_includes (pagination_footer e idx) ''To get the next chunk''"
    from js_includes_chars[OF this] have "CHR ''x'' \<in> set (pagination_footer e idx)"
      by simp
    with last_footer_no_x[OF last] show False ..
  qed
next
  let ?hint = "''To get the next chunk, use: get_youtube_subtitles with chunk_index=''
               @ num_to_string (idx + 1)"
  assume "idx < int (length (chunks e)) - 1"
  then have "\<exists>p. pagination_footer e idx = p @ ?hint"
    by (simp add: pagination_footer_def Let_def)
  then show "suffix ?hint (pagination_footer e idx)"
    by (auto simp: suffix_def)
qed

theorem pagination_footer_navigation_witness:
  "wf_state \<lparr>subtitleCache = [(''k'', \<lparr>url = ''u'', content = ''abcde'', chunks = [''abc'', ''de''],
                                   timestamp = 1000\<rparr>)], downloads = [''u'']\<rparr> \<and>
   (\<exists>st'. handleGetYoutubeSubtitles
            \<lparr>md5_hex = (\<lambda>u. ''k''), now_cleanup = 2000, now_store = 2000, yt_dlp = (\<lambda>u. Inr []),
             big_number_text = (\<lambda>n. ''1e+21'')\<rparr>
            \<lparr>arg_url = ''u'', chunk_index = 1, chunk_size = None\<rparr>
            \<lparr>subtitleCache = [(''k'', \<lparr>url = ''u'', content = ''abcde'', chunks = [''abc'', ''de''],
                                     timestamp = 1000\<rparr>)], downloads = [''u'']\<rparr>
          = (\<lparr>result_text =
                     Some ''de\<newline>\<newline>=== PAGINATION INFO ===\<newline>This is chunk 2 of 2 (2 characters)\<newline>Total content length: 5 characters\<newline>This is the last chunk.'',
                   isError = False\<rparr>, st')) \<and>
   suffix ''To get the next chunk, use: get_youtube_subtitles with chunk_index=1''
     (pagination_footer \<lparr>url = ''u'', content = ''abcde'', chunks = [''abc'', ''de''],
                          timestamp = 1000\<rparr> 0)"
  (is "wf_state ?st \<and> (\<exists>st'. handleGetYoutubeSubtitles ?w _ ?st = _) \<and> _")
proof -
  let ?e = "\<lparr>url = ''u'', content = ''abcde'', chunks = [''abc'', ''de''], timestamp = 1000\<rparr>"
  have wf: "wf_state ?st"
    by (simp add: wf_state_def)
  have hit: "map_of (subtitleCache ?st) (getCacheKey ?w ''u'') = Some ?e"
    by (simp add: getCacheKey_def)
  have fresh: "now_cleanup ?w - timestamp ?e \<le> CACHE_TTL"
    by (simp add: CACHE_TTL_def)
  have i0: "(0::int) \<le> 0" "(0::int) < int (length (chunks ?e))"
    and i1: "(0::int) \<le> 1" "(1::int) < int (length (chunks ?e))"
    by simp_all
  have footer: "pagination_footer ?e 1 = ''\<newline>\<newline>=== PAGINATION INFO ===\<newline>This is chunk 2 of 2 (2 characters)\<newline>Total content length: 5 characters\<newline>This is the last chunk.''"
    by (simp add: pagination_footer_def num_to_string_def nat_to_string.simps)
  have one: "num_to_string 1 = ''1''"
    by (simp add: num_to_string_def nat_to_string.simps)
  from pagination_footer_navigation[OF wf hit fresh i1, of None]
  have "\<exists>st'. handleGetYoutubeSubtitles ?w
                 \<lparr>arg_url = ''u'', chunk_index = 1, chunk_size = None\<rparr> ?st
          = (\<lparr>result_text = Some (chunks ?e ! nat 1 @ pagination_footer ?e 1),
                   isError = False\<rparr>, st')"
    by blast
  moreover from pagination_footer_navigation[OF wf hit fresh i0, of None]
  have "suffix (''To get the next chunk, use: get_youtube_subtitles with chunk_index=''
                @ num_to_string (0 + 1)) (pagination_footer ?e 0)"
    by simp
  ultimately show ?thesis
    using wf by (simp add: footer one)
qed

section \<open>The empty transcript\<close>

text \<open>
  C10. When no unexpired entry exists and the download is the empty text, the handler
  of \<^verbatim>\<open>download_youtube_url\<close> stores an entry with no chunk, and its response is a
  success envelope whose text is \<^verbatim>\<open>undefined\<close>, the value of \<^verbatim>\<open>cache.chunks[0]\<close>
  on the empty array, not the empty text.
\<close>

theorem empty_download_has_no_first_chunk:
  assumes "map_of (cleanupExpiredCache (now_cleanup w) (subtitleCache st)) (getCacheKey w u) = None"
    and "downloadSubtitles w u = Inr []"
  shows "\<exists>st'. handleDownloadYoutubeUrl w u st
                 = (\<lparr>result_text = None, isError = False\<rparr>, st') \<and>
               map_of (subtitleCache st') (getCacheKey w u)
                 = Some \<lparr>url = u, content = [], chunks = [], timestamp = now_store w\<rparr>"
  using getOrPopulate_miss[OF assms chunkText_Nil]
  by (simp add: handleDownloadYoutubeUrl_def first_chunk_response_def update_conv')

theorem empty_download_has_no_first_chunk_witness:
  "downloadSubtitles
     \<lparr>md5_hex = (\<lambda>u. ''k''), now_cleanup = 2000, now_store = 2005, yt_dlp = (\<lambda>u. Inr []),
             big_number_text = (\<lambda>n. ''1e+21'')\<rparr> ''u''
     = Inr [] \<and>
   (\<exists>st'. handleDownloadYoutubeUrl
            \<lparr>md5_hex = (\<lambda>u. ''k''), now_cleanup = 2000, now_store = 2005, yt_dlp = (\<lambda>u. Inr []),
             big_number_text = (\<lambda>n. ''1e+21'')\<rparr>
            ''u'' \<lparr>subtitleCache = [], downloads = []\<rparr>
          = (\<lparr>result_text = None, isError = False\<rparr>, st') \<and>
          map_of (subtitleCache st') ''k''
            = Some \<lparr>url = ''u'', content = [], chunks = [], timestamp = 2005\<rparr>)"
  (is "downloadSubtitles ?w ''u'' = Inr [] \<and> (\<exists>st'. handleDownloadYoutubeUrl ?w ''u'' ?st = _ \<and> _)")
proof -
  have miss: "map_of (cleanupExpiredCache (now_cleanup ?w) (subtitleCache ?st))
                (getCacheKey ?w ''u'') = None"
    by (simp add: cleanupExpiredCache_def)
  have dl: "downloadSubtitles ?w ''u'' = Inr []"
    by (simp add: downloadSubtitles_def)
  show ?thesis
    using dl empty_download_has_no_first_chunk[OF miss dl]
    by (simp add: getCacheKey_def)
qed

end
